theory Spec2Isabelle
  imports Main
begin

section \<open>Scheduler window: the model of schedext-window.cpp\<close>

subsection \<open>Files under /sys/kernel/sched_ext\<close>

text \<open>
  A file as \<open>std::ifstream\<close> sees it: it cannot be opened, it opens and the read fails,
  or it opens and holds some bytes.
\<close>

datatype kernel_file = Cannot_Open | Read_Error | Contents string

fun is_open :: "kernel_file \<Rightarrow> bool" where
  "is_open Cannot_Open = False"
| "is_open Read_Error = True"
| "is_open (Contents cs) = True"

text \<open>
  \<open>std::getline\<close> on a fresh stream: the characters before the first newline. It fails
  (\<open>None\<close>) when the read fails or when no character at all is extracted.
\<close>

fun getline :: "kernel_file \<Rightarrow> string option" where
  "getline Cannot_Open = None"
| "getline Read_Error = None"
| "getline (Contents []) = None"
| "getline (Contents (c # cs)) = Some (takeWhile (\<lambda>x. x \<noteq> CHR 0x0A) (c # cs))"

text \<open>
  What reading leaves behind: the paths handed to \<open>std::ifstream\<close>, in order, and the
  text printed on standard error.
\<close>

record file_io =
  accessed :: "string list"
  err_out :: "string list"

definition read_kernel_file ::
  "(string \<Rightarrow> kernel_file) \<Rightarrow> string \<Rightarrow> file_io \<Rightarrow> string \<times> file_io" where
  "read_kernel_file fs file_path io =
     (let io1 = io\<lparr>accessed := accessed io @ [file_path]\<rparr> in
      if \<not> is_open (fs file_path) then ([], io1)
      else (case getline (fs file_path) of
              None \<Rightarrow>
                ([], io1\<lparr>err_out := err_out io1 @
                        [''Failed to read := '' @ [CHR 0x27] @ file_path @ [CHR 0x27, CHR 0x0A]]\<rparr>)
            | Some file_content \<Rightarrow> (file_content, io1)))"

definition get_current_scheduler ::
  "(string \<Rightarrow> kernel_file) \<Rightarrow> file_io \<Rightarrow> string \<times> file_io" where
  "get_current_scheduler fs io =
     (case read_kernel_file fs ''/sys/kernel/sched_ext/state'' io of
        (current_state, io1) \<Rightarrow>
          if current_state \<noteq> ''enabled'' then (current_state, io1)
          else (case read_kernel_file fs ''/sys/kernel/sched_ext/root/ops'' io1 of
                  (current_sched, io2) \<Rightarrow>
                    if current_sched = [] then (''unknown'', io2)
                    else (current_sched, io2)))"

subsection \<open>The service queries and the two buttons\<close>

text \<open>
  The collaborators that are not in schedext-window.cpp, taken as they answer:
  \<open>utils::exec\<close> gives the output of a command, \<open>utils::read_whole_file\<close> the content
  of a file. \<open>trimmed\<close> is Qt's \<open>QString::trimmed\<close> followed by \<open>toStdString\<close>, on
  the text of a line edit held as UTF-8 bytes: which characters Qt counts as white space
  is Qt's business, so the function is taken as it is given.
\<close>

record sched_env =
  utils_exec :: "string \<Rightarrow> string"
  utils_read_whole_file :: "string \<Rightarrow> string"
  trimmed :: "string \<Rightarrow> string"

definition is_scx_service_enabled :: "sched_env \<Rightarrow> bool" where
  "is_scx_service_enabled env = (utils_exec env ''systemctl is-enabled scx'' = ''enabled'')"

definition is_scx_service_active :: "sched_env \<Rightarrow> bool" where
  "is_scx_service_active env = (utils_exec env ''systemctl is-active scx'' = ''active'')"

text \<open>
  The window: the widgets the handlers touch, the processes started with
  \<open>QProcess::startDetached\<close> (program and arguments, oldest first) and the text printed
  on standard output.
\<close>

record SchedExtWindow =
  disable_button_enabled :: bool
  apply_button_enabled :: bool
  schedext_flags_edit :: string
  schedext_combo_box :: string
  started_detached :: "(string \<times> string list) list"
  printed :: "string list"

definition startDetached :: "string \<Rightarrow> string list \<Rightarrow> SchedExtWindow \<Rightarrow> SchedExtWindow" where
  "startDetached program arguments w =
     w\<lparr>started_detached := started_detached w @ [(program, arguments)]\<rparr>"

definition print_out :: "string \<Rightarrow> SchedExtWindow \<Rightarrow> SchedExtWindow" where
  "print_out s w = w\<lparr>printed := printed w @ [s]\<rparr>"

definition on_disable :: "sched_env \<Rightarrow> SchedExtWindow \<Rightarrow> SchedExtWindow" where
  "on_disable env w =
     (let w1 = w\<lparr>disable_button_enabled := False\<rparr>;
          w2 = w1\<lparr>apply_button_enabled := False\<rparr>;
          w3 = (if is_scx_service_enabled env then
                  print_out (''Disabling scx'' @ [CHR 0x0A])
                    (startDetached ''/usr/bin/pkexec''
                       [''/usr/bin/systemctl'', ''disable'', ''--now'', ''scx''] w2)
                else if is_scx_service_active env then
                  print_out (''Stoping scx'' @ [CHR 0x0A])
                    (startDetached ''/usr/bin/pkexec'' [''/usr/bin/systemctl'', ''stop'', ''scx''] w2)
                else w2);
          w4 = w3\<lparr>disable_button_enabled := True\<rparr>
      in w4\<lparr>apply_button_enabled := True\<rparr>)"

subsection \<open>Applying a scheduler\<close>

text \<open>\<open>std::string::find\<close>: the first position of the pattern, \<open>None\<close> for \<open>npos\<close>.\<close>

fun starts_with :: "string \<Rightarrow> string \<Rightarrow> bool" where
  "starts_with s [] = True"
| "starts_with [] (p # ps) = False"
| "starts_with (c # cs) (p # ps) = (c = p \<and> starts_with cs ps)"

fun str_find :: "string \<Rightarrow> string \<Rightarrow> nat option" where
  "str_find [] pat = (if pat = [] then Some 0 else None)"
| "str_find (c # cs) pat =
     (if starts_with (c # cs) pat then Some 0 else map_option Suc (str_find cs pat))"

definition service_cmd :: "sched_env \<Rightarrow> string" where
  "service_cmd env = (if \<not> is_scx_service_enabled env then ''enable --now'' else ''restart'')"

definition is_flags_commented :: "sched_env \<Rightarrow> bool" where
  "is_flags_commented env =
     (str_find (utils_read_whole_file env ''/etc/default/scx'') ''#SCX_FLAGS='' \<noteq> None)"

definition get_scx_flags_sed :: "string \<Rightarrow> bool \<Rightarrow> string" where
  "get_scx_flags_sed sched_flags_text flags_commented =
     (if sched_flags_text = [] \<and> \<not> flags_commented then
        ''-e 's/SCX_FLAGS=/#SCX_FLAGS=/'' @ [CHR 0x27]
      else if sched_flags_text \<noteq> [] \<and> flags_commented then
        ''-e '' @ [CHR 0x22] @ ''s/.*SCX_FLAGS=.*/SCX_FLAGS=''
          @ [CHR 0x27] @ sched_flags_text @ [CHR 0x27] @ ''/'' @ [CHR 0x22]
      else if sched_flags_text \<noteq> [] \<and> \<not> flags_commented then
        ''-e '' @ [CHR 0x22] @ ''s/SCX_FLAGS=.*/SCX_FLAGS=''
          @ [CHR 0x27] @ sched_flags_text @ [CHR 0x27] @ ''/'' @ [CHR 0x22]
      else [])"

definition sed_cmd :: "string \<Rightarrow> string \<Rightarrow> string \<Rightarrow> string" where
  "sed_cmd current_selected scx_flags_sed svc_cmd =
     ''sed -e 's/SCX_SCHEDULER=.*/SCX_SCHEDULER='' @ current_selected @ ''/' ''
       @ scx_flags_sed @ '' -i /etc/default/scx && systemctl '' @ svc_cmd @ '' scx''"

definition on_apply :: "sched_env \<Rightarrow> SchedExtWindow \<Rightarrow> SchedExtWindow" where
  "on_apply env w =
     (let w1 = w\<lparr>disable_button_enabled := False\<rparr>;
          w2 = w1\<lparr>apply_button_enabled := False\<rparr>;
          svc_cmd = service_cmd env;
          flags_commented = is_flags_commented env;
          sched_flags_text = trimmed env (schedext_flags_edit w2);
          scx_flags_sed = get_scx_flags_sed sched_flags_text flags_commented;
          current_selected = schedext_combo_box w2;
          w3 = startDetached ''/usr/bin/pkexec''
                 [''/usr/bin/bash'', ''-c'', sed_cmd current_selected scx_flags_sed svc_cmd] w2;
          w4 = print_out (''Applying scx '' @ current_selected @ [CHR 0x0A]) w3;
          w5 = w4\<lparr>disable_button_enabled := True\<rparr>
      in w5\<lparr>apply_button_enabled := True\<rparr>)"

subsection \<open>Concrete inputs\<close>

definition fresh_io :: file_io where
  "fresh_io = \<lparr>accessed = [], err_out = []\<rparr>"

text \<open>A kernel without sched_ext: neither file exists.\<close>

definition no_sched_ext_fs :: "string \<Rightarrow> kernel_file" where
  "no_sched_ext_fs p = Cannot_Open"

text \<open>sched_ext is off: the state file says so.\<close>

definition disabled_fs :: "string \<Rightarrow> kernel_file" where
  "disabled_fs p =
     (if p = ''/sys/kernel/sched_ext/state'' then Contents (''disabled'' @ [CHR 0x0A])
      else Cannot_Open)"

text \<open>sched_ext is on and the ops file is there but empty.\<close>

definition enabled_empty_ops_fs :: "string \<Rightarrow> kernel_file" where
  "enabled_empty_ops_fs p =
     (if p = ''/sys/kernel/sched_ext/state'' then Contents (''enabled'' @ [CHR 0x0A])
      else if p = ''/sys/kernel/sched_ext/root/ops'' then Contents []
      else Cannot_Open)"

text \<open>
  A trimming function for the concrete inputs below, which are ASCII text: it drops tab,
  newline, vertical tab, form feed, carriage return and space at both ends, as
  \<open>QString::trimmed\<close> does on such text.
\<close>

definition is_ascii_space :: "char \<Rightarrow> bool" where
  "is_ascii_space c = (c = CHR 0x20 \<or> c = CHR 0x09 \<or> c = CHR 0x0A \<or> c = CHR 0x0B
                       \<or> c = CHR 0x0C \<or> c = CHR 0x0D)"

definition trim_ascii :: "string \<Rightarrow> string" where
  "trim_ascii s = rev (dropWhile is_ascii_space (rev (dropWhile is_ascii_space s)))"

text \<open>The scx service is neither enabled nor running; the flags line is not commented.\<close>

definition idle_env :: sched_env where
  "idle_env = \<lparr>utils_exec = (\<lambda>cmd. if cmd = ''systemctl is-enabled scx'' then ''disabled''
                                    else ''inactive''),
               utils_read_whole_file = (\<lambda>p. ''SCX_SCHEDULER=scx_rusty'' @ [CHR 0x0A]
                                    @ ''SCX_FLAGS=-v'' @ [CHR 0x0A]),
               trimmed = trim_ascii\<rparr>"

text \<open>The scx service is enabled; the flags line is commented.\<close>

definition commented_env :: sched_env where
  "commented_env = \<lparr>utils_exec = (\<lambda>cmd. if cmd = ''systemctl is-enabled scx'' then ''enabled''
                                    else ''active''),
               utils_read_whole_file = (\<lambda>p. ''SCX_SCHEDULER=scx_rusty'' @ [CHR 0x0A]
                                    @ ''#SCX_FLAGS=-v'' @ [CHR 0x0A]),
               trimmed = trim_ascii\<rparr>"

definition sched_window :: "string \<Rightarrow> SchedExtWindow" where
  "sched_window flags =
     \<lparr>disable_button_enabled = True, apply_button_enabled = True,
      schedext_flags_edit = flags, schedext_combo_box = ''scx_lavd'',
      started_detached = [], printed = []\<rparr>"

section \<open>Kernel manager window: the model of km-window.cpp\<close>

subsection \<open>Kernels and the package database\<close>

text \<open>A kernel package as the window identifies it.\<close>

record Kernel =
  raw :: string
  version :: string
  category :: string
  repo :: string

text \<open>
  libalpm and the methods of \<open>Kernel\<close> that talk to it are not in km-window.cpp. They
  are a parameter of the model: \<open>'db\<close> is whatever state the handle stands for, and each
  call is given by what it answers and what it does to that state. \<open>install\<close> and
  \<open>remove\<close> answer \<open>False\<close> when they fail; \<open>alpm_strerror\<close> is the text of the last
  error, \<open>alpm_strerror(alpm_errno(handle))\<close>.
\<close>

record 'db alpm =
  is_installed :: "'db \<Rightarrow> Kernel \<Rightarrow> bool"
  is_update_available :: "'db \<Rightarrow> Kernel \<Rightarrow> bool"
  get_installed_db :: "'db \<Rightarrow> Kernel \<Rightarrow> string"
  install :: "Kernel \<Rightarrow> 'db \<Rightarrow> bool \<times> 'db"
  remove :: "Kernel \<Rightarrow> 'db \<Rightarrow> bool \<times> 'db"
  commit_transaction :: "'db \<Rightarrow> 'db"
  alpm_strerror :: "'db \<Rightarrow> string"
  alpm_release :: "'db \<Rightarrow> 'db"

subsection \<open>install\_packages and remove\_packages\<close>

text \<open>
  Both loops run over the selected names with the database state and the text printed on
  standard error. \<open>install_selected\<close> and \<open>remove_selected\<close> are the loop bodies.
\<close>

definition install_selected ::
  "'db alpm \<Rightarrow> Kernel list \<Rightarrow> string \<Rightarrow> 'db \<times> string list \<Rightarrow> 'db \<times> string list" where
  "install_selected A kernels selected st =
     (case st of (handle, err) \<Rightarrow>
        (case find (\<lambda>el. raw el = selected) kernels of
           None \<Rightarrow> (handle, err)
         | Some kern \<Rightarrow>
             if \<not> is_installed A handle kern \<or> is_update_available A handle kern then
               (case install A kern handle of
                  (ok, handle') \<Rightarrow>
                    if \<not> ok then
                      (handle', err @ [''failed to add package to be installed (''
                                        @ alpm_strerror A handle' @ '')'' @ [CHR 0x0A]])
                    else (handle', err))
             else (handle, err)))"

fun install_packages ::
  "'db alpm \<Rightarrow> Kernel list \<Rightarrow> string list \<Rightarrow> 'db \<times> string list \<Rightarrow> bool \<times> 'db \<times> string list"
  where
  "install_packages A kernels [] st = (True, st)"
| "install_packages A kernels (selected # selected_list) st =
     install_packages A kernels selected_list (install_selected A kernels selected st)"

definition remove_selected ::
  "'db alpm \<Rightarrow> Kernel list \<Rightarrow> string \<Rightarrow> 'db \<times> string list \<Rightarrow> 'db \<times> string list" where
  "remove_selected A kernels selected st =
     (case st of (handle, err) \<Rightarrow>
        (case find (\<lambda>el. raw el = selected) kernels of
           None \<Rightarrow> (handle, err)
         | Some kern \<Rightarrow>
             if is_installed A handle kern then
               (case remove A kern handle of
                  (ok, handle') \<Rightarrow>
                    if \<not> ok then
                      (handle', err @ [''failed to add package to be removed (''
                                        @ alpm_strerror A handle' @ '')'' @ [CHR 0x0A]])
                    else (handle', err))
             else (handle, err)))"

fun remove_packages ::
  "'db alpm \<Rightarrow> Kernel list \<Rightarrow> string list \<Rightarrow> 'db \<times> string list \<Rightarrow> bool \<times> 'db \<times> string list"
  where
  "remove_packages A kernels [] st = (True, st)"
| "remove_packages A kernels (selected # selected_list) st =
     remove_packages A kernels selected_list (remove_selected A kernels selected st)"

subsection \<open>The window\<close>

datatype CheckState = Unchecked | PartiallyChecked | Checked

text \<open>A row of the kernel tree: its check box, its text columns, its number of children.\<close>

record QTreeWidgetItem =
  checkState :: CheckState
  text_PkgName :: string
  text_Version :: string
  text_Category :: string
  text_Displayed :: string
  text_Immutable :: string
  childCount :: nat

text \<open>
  Where the worker thread stands in its lambda: at the test of the \<open>while\<close>, in
  \<open>m_cv.wait\<close>, at the \<open>if\<close> on the two flags, in the body of that \<open>if\<close>, or past the
  loop.
\<close>

datatype worker_pc = Loop_test | Cv_wait | Flags_test | Transaction | Returned

text \<open>
  The fields of \<open>MainWindow\<close> that the code reads and writes. \<open>m_cv_notified\<close> counts the
  calls of \<open>notify_all\<close>; \<open>m_worker_th\<close> is \<open>None\<close> until the thread is started;
  \<open>currentItem\<close> is an index into \<open>treeKernels\<close>, \<open>None\<close> for \<open>nullptr\<close>; \<open>tree_focused\<close>
  says that \<open>focusWidget()\<close> is the tree; \<open>printed_err\<close> is standard error.
\<close>

record 'db MainWindow =
  m_running :: bool
  m_thread_running :: bool
  m_cv_notified :: nat
  m_worker_th :: "worker_pc option"
  m_change_list :: "string list"
  m_kernels :: "Kernel list"
  m_handle :: 'db
  ok_enabled :: bool
  treeKernels :: "QTreeWidgetItem list"
  currentItem :: "nat option"
  tree_focused :: bool
  printed_err :: "string list"

subsection \<open>The constructor's tree\<close>

definition make_item :: "'db alpm \<Rightarrow> 'db \<Rightarrow> Kernel \<Rightarrow> QTreeWidgetItem" where
  "make_item A handle kern =
     (let widget_item = \<lparr>checkState = Unchecked, text_PkgName = raw kern,
                          text_Version = version kern, text_Category = category kern,
                          text_Displayed = ''true'', text_Immutable = [], childCount = 0\<rparr>
      in if is_installed A handle kern then
           (let kernel_installed_db = get_installed_db A handle kern
            in if kernel_installed_db \<noteq> [] \<and> kernel_installed_db \<noteq> repo kern
               then widget_item
               else widget_item\<lparr>text_Immutable := ''true'', checkState := Checked\<rparr>)
         else widget_item)"

text \<open>
  The state the constructor leaves: one row per kernel, nothing in the change list, the
  worker thread not started. The first values of the two flags and of the button are
  set in the header and the form, and are left open.
\<close>

definition initial_window :: "'db alpm \<Rightarrow> 'db MainWindow \<Rightarrow> bool" where
  "initial_window A w =
     (treeKernels w = map (make_item A (m_handle w)) (m_kernels w)
      \<and> m_change_list w = [] \<and> m_worker_th w = None)"

subsection \<open>Checking and unchecking rows\<close>

definition setCurrentItem :: "nat \<Rightarrow> 'db MainWindow \<Rightarrow> 'db MainWindow" where
  "setCurrentItem i w = w\<lparr>currentItem := Some i\<rparr>"

definition buildChangeList :: "QTreeWidgetItem \<Rightarrow> 'db MainWindow \<Rightarrow> 'db MainWindow" where
  "buildChangeList item w =
     (let item_text = text_PkgName item; immutable = text_Immutable item
      in if immutable = ''true'' \<and> checkState item = Unchecked then
           w\<lparr>ok_enabled := True, m_change_list := m_change_list w @ [item_text]\<rparr>
         else
           (let w1 = (if checkState item = Checked then
                        w\<lparr>ok_enabled := True, m_change_list := m_change_list w @ [item_text]\<rparr>
                      else w\<lparr>m_change_list := remove1 item_text (m_change_list w)\<rparr>)
            in if m_change_list w1 = [] then w1\<lparr>ok_enabled := False\<rparr> else w1))"

definition item_changed :: "nat \<Rightarrow> 'db MainWindow \<Rightarrow> 'db MainWindow" where
  "item_changed i w =
     (let item = treeKernels w ! i;
          w1 = (if checkState item = Checked then setCurrentItem i w else w)
      in buildChangeList item w1)"

text \<open>
  \<open>QTreeWidgetItem::setCheckState\<close>: a row whose state really changes emits
  \<open>itemChanged\<close>, which runs the slot \<open>item_changed\<close>.
\<close>

definition setCheckState :: "nat \<Rightarrow> CheckState \<Rightarrow> 'db MainWindow \<Rightarrow> 'db MainWindow" where
  "setCheckState i new_state w =
     (if checkState (treeKernels w ! i) = new_state then w
      else item_changed i
             (w\<lparr>treeKernels := (treeKernels w)[i := (treeKernels w ! i)\<lparr>checkState := new_state\<rparr>]\<rparr>))"

text \<open>An index that is not a row of the tree stands for no current item.\<close>

definition checkUncheckItem :: "'db MainWindow \<Rightarrow> 'db MainWindow" where
  "checkUncheckItem w =
     (if tree_focused w then
        (case currentItem w of
           None \<Rightarrow> w
         | Some i \<Rightarrow>
             if \<not> i < length (treeKernels w) \<or> childCount (treeKernels w ! i) > 0 then w
             else
               (let new_state = (if checkState (treeKernels w ! i) = Checked then Unchecked
                                 else Checked)
                in setCheckState i new_state w))
      else w)"

text \<open>
  A double click on row \<open>i\<close>: the two slots connected to \<open>itemDoubleClicked\<close>, in the order
  of their connection.
\<close>

definition itemDoubleClicked :: "nat \<Rightarrow> 'db MainWindow \<Rightarrow> 'db MainWindow" where
  "itemDoubleClicked i w = checkUncheckItem (setCurrentItem i w)"

fun toggles :: "nat list \<Rightarrow> 'db MainWindow \<Rightarrow> 'db MainWindow" where
  "toggles [] w = w"
| "toggles (i # rest) w = toggles rest (itemDoubleClicked i w)"

text \<open>The names of the rows that are checked and not immutable, in the order of the tree.\<close>

definition checked_not_immutable :: "QTreeWidgetItem list \<Rightarrow> string list" where
  "checked_not_immutable items =
     map text_PkgName
       (filter (\<lambda>item. checkState item = Checked \<and> text_Immutable item \<noteq> ''true'') items)"

text \<open>The names of the immutable rows that are unchecked.\<close>

definition unchecked_immutable :: "QTreeWidgetItem list \<Rightarrow> string list" where
  "unchecked_immutable items =
     map text_PkgName
       (filter (\<lambda>item. checkState item = Unchecked \<and> text_Immutable item = ''true'') items)"

subsection \<open>The worker thread, the OK button and closing\<close>

text \<open>The body of the \<open>if\<close> in the worker's loop, lines 78 to 90.\<close>

definition worker_transaction :: "'db alpm \<Rightarrow> 'db MainWindow \<Rightarrow> 'db MainWindow" where
  "worker_transaction A w =
     (let w1 = w\<lparr>ok_enabled := False\<rparr>;
          change_list = map (\<lambda>i. m_change_list w1 ! i) [0 ..< length (m_change_list w1)]
      in case install_packages A (m_kernels w1) change_list (m_handle w1, printed_err w1) of
           (r1, st1) \<Rightarrow>
             (case remove_packages A (m_kernels w1) change_list st1 of
                (r2, handle2, err2) \<Rightarrow>
                  (let w2 = w1\<lparr>m_handle := commit_transaction A handle2, printed_err := err2\<rparr>;
                       w3 = w2\<lparr>m_running := False\<rparr>
                   in w3\<lparr>ok_enabled := True\<rparr>)))"

text \<open>
  One step of the worker thread. In \<open>Cv_wait\<close> the thread stays where it is while the
  predicate of \<open>m_cv.wait\<close> is false.
\<close>

definition worker_step :: "'db alpm \<Rightarrow> 'db MainWindow \<Rightarrow> 'db MainWindow" where
  "worker_step A w =
     (case m_worker_th w of
        None \<Rightarrow> w
      | Some Loop_test \<Rightarrow>
          if m_thread_running w then
            w\<lparr>m_worker_th := Some Cv_wait,
              printed_err := printed_err w @ [''Waiting... '' @ [CHR 0x0A]]\<rparr>
          else w\<lparr>m_worker_th := Some Returned\<rparr>
      | Some Cv_wait \<Rightarrow>
          if m_running w then w\<lparr>m_worker_th := Some Flags_test\<rparr> else w
      | Some Flags_test \<Rightarrow>
          if m_running w \<and> m_thread_running w then w\<lparr>m_worker_th := Some Transaction\<rparr>
          else w\<lparr>m_worker_th := Some Loop_test\<rparr>
      | Some Transaction \<Rightarrow> (worker_transaction A w)\<lparr>m_worker_th := Some Loop_test\<rparr>
      | Some Returned \<Rightarrow> w)"

text \<open>The worker thread left to run for \<open>n\<close> steps, nothing else happening meanwhile.\<close>

fun worker_steps :: "'db alpm \<Rightarrow> nat \<Rightarrow> 'db MainWindow \<Rightarrow> 'db MainWindow" where
  "worker_steps A 0 w = w"
| "worker_steps A (Suc n) w = worker_steps A n (worker_step A w)"

text \<open>
  \<open>closeEvent\<close>, statement by statement (lines 204, 205, 206 and 209). The GUI thread
  runs them in this order without holding \<open>m_mutex\<close>, so the worker thread may take
  steps between any two of them.
\<close>

definition closeEvent_store_running :: "'db MainWindow \<Rightarrow> 'db MainWindow" where
  "closeEvent_store_running w = w\<lparr>m_running := True\<rparr>"

definition closeEvent_store_thread_running :: "'db MainWindow \<Rightarrow> 'db MainWindow" where
  "closeEvent_store_thread_running w = w\<lparr>m_thread_running := False\<rparr>"

definition closeEvent_notify_all :: "'db MainWindow \<Rightarrow> 'db MainWindow" where
  "closeEvent_notify_all w = w\<lparr>m_cv_notified := Suc (m_cv_notified w)\<rparr>"

definition closeEvent_release :: "'db alpm \<Rightarrow> 'db MainWindow \<Rightarrow> 'db MainWindow" where
  "closeEvent_release A w = w\<lparr>m_handle := alpm_release A (m_handle w)\<rparr>"

text \<open>
  What the two threads can do next: a step of the worker, or one of the statements of
  \<open>closeEvent\<close>. A run of the program is a list of such actions; the statements of
  \<open>closeEvent\<close> occur in it in their order in the source.
\<close>

datatype action = Worker | Store_running | Store_thread_running | Notify_all | Release_handle

fun perform :: "'db alpm \<Rightarrow> action \<Rightarrow> 'db MainWindow \<Rightarrow> 'db MainWindow" where
  "perform A Worker w = worker_step A w"
| "perform A Store_running w = closeEvent_store_running w"
| "perform A Store_thread_running w = closeEvent_store_thread_running w"
| "perform A Notify_all w = closeEvent_notify_all w"
| "perform A Release_handle w = closeEvent_release A w"

fun interleave :: "'db alpm \<Rightarrow> action list \<Rightarrow> 'db MainWindow \<Rightarrow> 'db MainWindow" where
  "interleave A [] w = w"
| "interleave A (a # rest) w = interleave A rest (perform A a w)"

text \<open>
  \<open>closeEvent\<close> in the one run in which the worker thread takes no step from the first
  statement to the last.
\<close>

definition closeEvent :: "'db alpm \<Rightarrow> 'db MainWindow \<Rightarrow> 'db MainWindow" where
  "closeEvent A w =
     interleave A [Store_running, Store_thread_running, Notify_all, Release_handle] w"

text \<open>\<open>QThread::start\<close> does nothing on a thread that has been started.\<close>

definition on_execute :: "'db MainWindow \<Rightarrow> 'db MainWindow" where
  "on_execute w =
     (if m_running w then w
      else
        (let w1 = w\<lparr>m_running := True\<rparr>;
             w2 = w1\<lparr>m_thread_running := True\<rparr>;
             w3 = w2\<lparr>m_cv_notified := Suc (m_cv_notified w2)\<rparr>
         in w3\<lparr>m_worker_th := (case m_worker_th w3 of None \<Rightarrow> Some Loop_test
                                 | Some pc \<Rightarrow> Some pc)\<rparr>))"

subsection \<open>A concrete database and window\<close>

record demo_db =
  installed_pkgs :: "string list"
  to_install :: "string list"
  to_remove :: "string list"
  last_error :: string

text \<open>
  A database in which adding linux-cachyos-rc to a transaction fails and removing
  linux-cachyos-lts fails.
\<close>

definition demo_alpm :: "demo_db alpm" where
  "demo_alpm =
     \<lparr>is_installed = (\<lambda>h k. raw k \<in> set (installed_pkgs h)),
      is_update_available = (\<lambda>h k. False),
      get_installed_db = (\<lambda>h k. if raw k \<in> set (installed_pkgs h) then repo k else []),
      install = (\<lambda>k h. if raw k = ''linux-cachyos-rc''
                        then (False, h\<lparr>last_error := ''could not find or read package''\<rparr>)
                        else (True, h\<lparr>to_install := to_install h @ [raw k]\<rparr>)),
      remove = (\<lambda>k h. if raw k = ''linux-cachyos-lts''
                       then (False, h\<lparr>last_error := ''could not satisfy dependencies''\<rparr>)
                       else (True, h\<lparr>to_remove := to_remove h @ [raw k]\<rparr>)),
      commit_transaction =
        (\<lambda>h. h\<lparr>installed_pkgs :=
                  filter (\<lambda>p. p \<notin> set (to_remove h)) (installed_pkgs h) @ to_install h,
                to_install := [], to_remove := []\<rparr>),
      alpm_strerror = last_error,
      alpm_release = (\<lambda>h. h)\<rparr>"

definition demo_kernel :: "string \<Rightarrow> Kernel" where
  "demo_kernel name = \<lparr>raw = name, version = ''6.9.1-1'', category = ''bore'', repo = ''cachyos''\<rparr>"

definition demo_kernels :: "Kernel list" where
  "demo_kernels = [demo_kernel ''linux-cachyos'', demo_kernel ''linux-cachyos-lts'',
                   demo_kernel ''linux-cachyos-rc'', demo_kernel ''linux-cachyos-bore'']"

definition demo_handle :: demo_db where
  "demo_handle = \<lparr>installed_pkgs = [''linux-cachyos'', ''linux-cachyos-lts''],
                  to_install = [], to_remove = [], last_error = []\<rparr>"

definition demo_window :: "demo_db MainWindow" where
  "demo_window =
     \<lparr>m_running = False, m_thread_running = True, m_cv_notified = 0, m_worker_th = None,
      m_change_list = [], m_kernels = demo_kernels, m_handle = demo_handle,
      ok_enabled = False,
      treeKernels = map (make_item demo_alpm demo_handle) demo_kernels,
      currentItem = None, tree_focused = True, printed_err = []\<rparr>"

text \<open>The window while a transaction is running.\<close>

definition busy_window :: "demo_db MainWindow" where
  "busy_window = demo_window\<lparr>m_running := True, m_worker_th := Some Transaction,
                              m_change_list := [''linux-cachyos-bore'']\<rparr>"

text \<open>The worker thread parked in \<open>m_cv.wait\<close>, no transaction running.\<close>

definition parked_window :: "demo_db MainWindow" where
  "parked_window = demo_window\<lparr>m_worker_th := Some Cv_wait\<rparr>"

text \<open>The user has checked linux-cachyos-bore and pressed OK.\<close>

definition confirmed_window :: "demo_db MainWindow" where
  "confirmed_window = on_execute (toggles [3] demo_window)"

text \<open>
  After that the worker reaches the body of the transaction in three steps, and the
  user closes the window while the transaction is in flight: the first store of
  \<open>closeEvent\<close>, then the worker finishes the transaction and goes round its loop into
  \<open>m_cv.wait\<close>, then the rest of \<open>closeEvent\<close>.
\<close>

definition closed_during_transaction :: "demo_db MainWindow" where
  "closed_during_transaction =
     interleave demo_alpm
       [Worker, Worker, Worker,
        Store_running, Worker, Worker, Store_thread_running, Notify_all, Release_handle]
       confirmed_window"

subsection \<open>Notions used in the proofs about the worker thread\<close>

text \<open>
  How many steps the worker is from the end of its lambda once the thread-alive flag is
  down and the running flag is up.
\<close>

fun rank :: "worker_pc option \<Rightarrow> nat" where
  "rank None = 0"
| "rank (Some Returned) = 0"
| "rank (Some Loop_test) = 1"
| "rank (Some Flags_test) = 2"
| "rank (Some Transaction) = 2"
| "rank (Some Cv_wait) = 3"

text \<open>The thread-alive flag is down and the worker is neither waiting nor in the body.\<close>

definition winding_down :: "'db MainWindow \<Rightarrow> bool" where
  "winding_down w =
     (\<not> m_thread_running w
      \<and> (m_worker_th w = Some Loop_test \<or> m_worker_th w = Some Flags_test
         \<or> m_worker_th w = Some Returned))"

subsection \<open>Notions used in the proofs about the change list\<close>

text \<open>
  A row whose state differs from what is installed: checked and not immutable, or
  immutable and unchecked.
\<close>

definition in_change_set :: "QTreeWidgetItem \<Rightarrow> bool" where
  "in_change_set item =
     (checkState item = Checked \<and> text_Immutable item \<noteq> ''true''
      \<or> checkState item = Unchecked \<and> text_Immutable item = ''true'')"

text \<open>The names of those rows, in the order of the tree.\<close>

definition expected :: "QTreeWidgetItem list \<Rightarrow> string list" where
  "expected items = map text_PkgName (filter in_change_set items)"

text \<open>A row after \<open>checkUncheckItem\<close> has flipped its check box.\<close>

definition toggled :: "QTreeWidgetItem \<Rightarrow> QTreeWidgetItem" where
  "toggled item =
     item\<lparr>checkState := (if checkState item = Checked then Unchecked else Checked)\<rparr>"

text \<open>The guards of \<open>checkUncheckItem\<close> for the row \<open>i\<close>.\<close>

definition can_toggle :: "nat \<Rightarrow> 'db MainWindow \<Rightarrow> bool" where
  "can_toggle i w =
     (tree_focused w \<and> i < length (treeKernels w) \<and> childCount (treeKernels w ! i) = 0)"

section \<open>Properties of the scheduler window\<close>

lemma read_kernel_file_accessed:
  "accessed (snd (read_kernel_file fs p io)) = accessed io @ [p]"
  by (simp add: read_kernel_file_def Let_def split: option.splits)

lemma read_kernel_file_closed:
  "\<not> is_open (fs p) \<Longrightarrow> fst (read_kernel_file fs p io) = []"
  by (simp add: read_kernel_file_def Let_def)

lemma read_kernel_file_getline:
  "is_open (fs p) \<Longrightarrow>
     fst (read_kernel_file fs p io) = (case getline (fs p) of None \<Rightarrow> [] | Some l \<Rightarrow> l)"
  by (simp add: read_kernel_file_def Let_def split: option.splits)

lemma get_current_scheduler_state:
  "read_kernel_file fs ''/sys/kernel/sched_ext/state'' io = (s, io1) \<Longrightarrow> s \<noteq> ''enabled'' \<Longrightarrow>
     get_current_scheduler fs io = (s, io1)"
  by (simp add: get_current_scheduler_def)

lemma get_current_scheduler_ops:
  "read_kernel_file fs ''/sys/kernel/sched_ext/state'' io = (''enabled'', io1) \<Longrightarrow>
   read_kernel_file fs ''/sys/kernel/sched_ext/root/ops'' io1 = (t, io2) \<Longrightarrow>
     get_current_scheduler fs io = (if t = [] then ''unknown'' else t, io2)"
  by (simp add: get_current_scheduler_def)

lemma getline_Some_open: "getline f = Some l \<Longrightarrow> is_open f"
  by (cases f) simp_all

text \<open>
  C3, as the code has it: when the state file cannot be opened or cannot be read,
  \<open>get_current_scheduler\<close> returns the empty string; when the state file reads
  \<open>enabled\<close> and the ops file cannot be opened, cannot be read or gives an empty line, it
  returns \<open>unknown\<close>.
\<close>

theorem get_current_scheduler_read_failures:
  "(\<not> is_open (fs ''/sys/kernel/sched_ext/state'')
      \<or> getline (fs ''/sys/kernel/sched_ext/state'') = None
      \<longrightarrow> fst (get_current_scheduler fs io) = [])
   \<and> (getline (fs ''/sys/kernel/sched_ext/state'') = Some ''enabled''
        \<and> (\<not> is_open (fs ''/sys/kernel/sched_ext/root/ops'')
             \<or> getline (fs ''/sys/kernel/sched_ext/root/ops'') = None
             \<or> getline (fs ''/sys/kernel/sched_ext/root/ops'') = Some [])
      \<longrightarrow> fst (get_current_scheduler fs io) = ''unknown'')"
proof (intro conjI impI)
  assume "\<not> is_open (fs ''/sys/kernel/sched_ext/state'')
            \<or> getline (fs ''/sys/kernel/sched_ext/state'') = None"
  then have "fst (read_kernel_file fs ''/sys/kernel/sched_ext/state'' io) = []"
    by (cases "is_open (fs ''/sys/kernel/sched_ext/state'')")
       (simp_all add: read_kernel_file_closed read_kernel_file_getline)
  then show "fst (get_current_scheduler fs io) = []"
    by (cases "read_kernel_file fs ''/sys/kernel/sched_ext/state'' io")
       (simp add: get_current_scheduler_state)
next
  assume a: "getline (fs ''/sys/kernel/sched_ext/state'') = Some ''enabled''
        \<and> (\<not> is_open (fs ''/sys/kernel/sched_ext/root/ops'')
             \<or> getline (fs ''/sys/kernel/sched_ext/root/ops'') = None
             \<or> getline (fs ''/sys/kernel/sched_ext/root/ops'') = Some [])"
  then have "is_open (fs ''/sys/kernel/sched_ext/state'')"
    by (simp add: getline_Some_open)
  with a have st: "fst (read_kernel_file fs ''/sys/kernel/sched_ext/state'' io) = ''enabled''"
    by (simp add: read_kernel_file_getline)
  have ops: "fst (read_kernel_file fs ''/sys/kernel/sched_ext/root/ops'' io1) = []" for io1
    using a
    by (cases "is_open (fs ''/sys/kernel/sched_ext/root/ops'')")
       (auto simp: read_kernel_file_closed read_kernel_file_getline)
  obtain s io1 where r1: "read_kernel_file fs ''/sys/kernel/sched_ext/state'' io = (s, io1)"
    by (cases "read_kernel_file fs ''/sys/kernel/sched_ext/state'' io")
  obtain t io2 where r2: "read_kernel_file fs ''/sys/kernel/sched_ext/root/ops'' io1 = (t, io2)"
    by (cases "read_kernel_file fs ''/sys/kernel/sched_ext/root/ops'' io1")
  from st r1 have "s = ''enabled''" by simp
  moreover from ops [of io1] r2 have "t = []" by simp
  ultimately show "fst (get_current_scheduler fs io) = ''unknown''"
    using r1 r2 by (simp add: get_current_scheduler_ops)
qed

theorem get_current_scheduler_read_failures_witness:
  "\<not> is_open (no_sched_ext_fs ''/sys/kernel/sched_ext/state'')
   \<and> fst (get_current_scheduler no_sched_ext_fs fresh_io) = []
   \<and> getline (enabled_empty_ops_fs ''/sys/kernel/sched_ext/state'') = Some ''enabled''
   \<and> getline (enabled_empty_ops_fs ''/sys/kernel/sched_ext/root/ops'') = None
   \<and> fst (get_current_scheduler enabled_empty_ops_fs fresh_io) = ''unknown''"
  using get_current_scheduler_read_failures [of no_sched_ext_fs fresh_io]
    get_current_scheduler_read_failures [of enabled_empty_ops_fs fresh_io]
  by (simp add: no_sched_ext_fs_def enabled_empty_ops_fs_def)

text \<open>
  C3, as the claim has it, fails: on a kernel without sched_ext the state file cannot be
  opened, and the result is the empty string, not \<open>unknown\<close>.
\<close>

theorem get_current_scheduler_state_unreadable_not_unknown:
  "\<not> is_open (no_sched_ext_fs ''/sys/kernel/sched_ext/state'')
   \<and> fst (get_current_scheduler no_sched_ext_fs fresh_io) = []
   \<and> fst (get_current_scheduler no_sched_ext_fs fresh_io) \<noteq> ''unknown''"
  by (simp add: get_current_scheduler_def read_kernel_file_def no_sched_ext_fs_def
      fresh_io_def)

text \<open>
  C7: whatever string the read of the state file gives, if it is not \<open>enabled\<close> (the empty
  string included) \<open>get_current_scheduler\<close> returns that string as it is, and the state
  file is the only file it has read: the ops file is not touched.
\<close>

theorem get_current_scheduler_not_enabled:
  assumes "fst (read_kernel_file fs ''/sys/kernel/sched_ext/state'' io) \<noteq> ''enabled''"
  shows "get_current_scheduler fs io = read_kernel_file fs ''/sys/kernel/sched_ext/state'' io
         \<and> accessed (snd (get_current_scheduler fs io))
             = accessed io @ [''/sys/kernel/sched_ext/state'']"
proof -
  from assms
  have "get_current_scheduler fs io = read_kernel_file fs ''/sys/kernel/sched_ext/state'' io"
    by (cases "read_kernel_file fs ''/sys/kernel/sched_ext/state'' io")
       (simp add: get_current_scheduler_state)
  then show ?thesis
    by (simp add: read_kernel_file_accessed)
qed

theorem get_current_scheduler_not_enabled_witness:
  "fst (read_kernel_file disabled_fs ''/sys/kernel/sched_ext/state'' fresh_io) \<noteq> ''enabled''
   \<and> fst (get_current_scheduler disabled_fs fresh_io) = ''disabled''
   \<and> accessed (snd (get_current_scheduler disabled_fs fresh_io))
       = [''/sys/kernel/sched_ext/state'']"
proof -
  have r: "read_kernel_file disabled_fs ''/sys/kernel/sched_ext/state'' fresh_io
            = (''disabled'', \<lparr>accessed = [''/sys/kernel/sched_ext/state''], err_out = []\<rparr>)"
    by (simp add: read_kernel_file_def disabled_fs_def fresh_io_def)
  then have h: "fst (read_kernel_file disabled_fs ''/sys/kernel/sched_ext/state'' fresh_io)
                  \<noteq> ''enabled''"
    by simp
  show ?thesis
    using h get_current_scheduler_not_enabled [OF h] r by (simp add: fresh_io_def)
qed

text \<open>
  C8: when the read of the state file gives \<open>enabled\<close> and the read of the ops file that
  follows gives the empty string, \<open>get_current_scheduler\<close> returns exactly \<open>unknown\<close>.
\<close>

theorem get_current_scheduler_enabled_empty_ops:
  assumes "read_kernel_file fs ''/sys/kernel/sched_ext/state'' io = (''enabled'', io1)"
    and "fst (read_kernel_file fs ''/sys/kernel/sched_ext/root/ops'' io1) = []"
  shows "fst (get_current_scheduler fs io) = ''unknown''"
proof -
  obtain t io2 where "read_kernel_file fs ''/sys/kernel/sched_ext/root/ops'' io1 = (t, io2)"
    by (cases "read_kernel_file fs ''/sys/kernel/sched_ext/root/ops'' io1")
  with assms show ?thesis
    by (simp add: get_current_scheduler_ops)
qed

theorem get_current_scheduler_enabled_empty_ops_witness:
  "read_kernel_file enabled_empty_ops_fs ''/sys/kernel/sched_ext/state'' fresh_io
     = (''enabled'', \<lparr>accessed = [''/sys/kernel/sched_ext/state''], err_out = []\<rparr>)
   \<and> fst (read_kernel_file enabled_empty_ops_fs ''/sys/kernel/sched_ext/root/ops''
            \<lparr>accessed = [''/sys/kernel/sched_ext/state''], err_out = []\<rparr>) = []
   \<and> fst (get_current_scheduler enabled_empty_ops_fs fresh_io) = ''unknown''"
proof -
  have h1: "read_kernel_file enabled_empty_ops_fs ''/sys/kernel/sched_ext/state'' fresh_io
     = (''enabled'', \<lparr>accessed = [''/sys/kernel/sched_ext/state''], err_out = []\<rparr>)"
    by (simp add: read_kernel_file_def enabled_empty_ops_fs_def fresh_io_def)
  have h2: "fst (read_kernel_file enabled_empty_ops_fs ''/sys/kernel/sched_ext/root/ops''
            \<lparr>accessed = [''/sys/kernel/sched_ext/state''], err_out = []\<rparr>) = []"
    by (simp add: read_kernel_file_def enabled_empty_ops_fs_def)
  show ?thesis
    using h1 h2 get_current_scheduler_enabled_empty_ops [OF h1 h2] by simp
qed

lemma on_apply_started:
  "started_detached (on_apply env w) =
     started_detached w @
       [(''/usr/bin/pkexec'',
         [''/usr/bin/bash'', ''-c'',
          sed_cmd (schedext_combo_box w)
            (get_scx_flags_sed (trimmed env (schedext_flags_edit w)) (is_flags_commented env))
            (service_cmd env)])]"
  by (simp add: on_apply_def Let_def startDetached_def print_out_def)

text \<open>
  C5: applying a selection when the trimmed flags text is empty and the flags line of
  /etc/default/scx is not commented gives the sed fragment that comments the line out,
  \<open>-e 's/SCX_FLAGS=/#SCX_FLAGS=/'\<close>; when the text is not empty and the line is commented,
  the fragment replaces the whole line (\<open>.*SCX_FLAGS=.*\<close>) by the uncommented assignment
  \<open>SCX_FLAGS='text'\<close>. In both cases the fragment is the second \<open>-e\<close> of the sed command
  handed to pkexec.
\<close>

theorem on_apply_flags_sed:
  "(trimmed env (schedext_flags_edit w) = [] \<and> \<not> is_flags_commented env \<longrightarrow>
      get_scx_flags_sed (trimmed env (schedext_flags_edit w)) (is_flags_commented env)
        = ''-e 's/SCX_FLAGS=/#SCX_FLAGS=/'' @ [CHR 0x27]
      \<and> started_detached (on_apply env w) =
          started_detached w @
            [(''/usr/bin/pkexec'',
              [''/usr/bin/bash'', ''-c'',
               ''sed -e 's/SCX_SCHEDULER=.*/SCX_SCHEDULER='' @ schedext_combo_box w
                 @ ''/' -e 's/SCX_FLAGS=/#SCX_FLAGS=/' -i /etc/default/scx && systemctl ''
                 @ service_cmd env @ '' scx''])])
   \<and> (trimmed env (schedext_flags_edit w) \<noteq> [] \<and> is_flags_commented env \<longrightarrow>
      get_scx_flags_sed (trimmed env (schedext_flags_edit w)) (is_flags_commented env)
        = ''-e '' @ [CHR 0x22] @ ''s/.*SCX_FLAGS=.*/SCX_FLAGS='' @ [CHR 0x27]
            @ trimmed env (schedext_flags_edit w) @ [CHR 0x27] @ ''/'' @ [CHR 0x22]
      \<and> started_detached (on_apply env w) =
          started_detached w @
            [(''/usr/bin/pkexec'',
              [''/usr/bin/bash'', ''-c'',
               ''sed -e 's/SCX_SCHEDULER=.*/SCX_SCHEDULER='' @ schedext_combo_box w
                 @ ''/' -e '' @ [CHR 0x22] @ ''s/.*SCX_FLAGS=.*/SCX_FLAGS='' @ [CHR 0x27]
                 @ trimmed env (schedext_flags_edit w) @ [CHR 0x27] @ ''/'' @ [CHR 0x22]
                 @ '' -i /etc/default/scx && systemctl '' @ service_cmd env @ '' scx''])])"
  by (simp add: on_apply_started get_scx_flags_sed_def sed_cmd_def)

theorem on_apply_flags_sed_witness:
  "trimmed idle_env (schedext_flags_edit (sched_window [CHR 0x20, CHR 0x20])) = []
   \<and> \<not> is_flags_commented idle_env
   \<and> started_detached (on_apply idle_env (sched_window [CHR 0x20, CHR 0x20])) =
        [(''/usr/bin/pkexec'',
          [''/usr/bin/bash'', ''-c'',
           ''sed -e 's/SCX_SCHEDULER=.*/SCX_SCHEDULER=scx_lavd/' ''
             @ ''-e 's/SCX_FLAGS=/#SCX_FLAGS=/' -i /etc/default/scx ''
             @ ''&& systemctl enable --now scx''])]
   \<and> trimmed commented_env (schedext_flags_edit (sched_window '' -v -k '')) = ''-v -k''
   \<and> is_flags_commented commented_env
   \<and> started_detached (on_apply commented_env (sched_window '' -v -k '')) =
        [(''/usr/bin/pkexec'',
          [''/usr/bin/bash'', ''-c'',
           ''sed -e 's/SCX_SCHEDULER=.*/SCX_SCHEDULER=scx_lavd/' ''
             @ ''-e '' @ [CHR 0x22] @ ''s/.*SCX_FLAGS=.*/SCX_FLAGS='-v -k'/'' @ [CHR 0x22]
             @ '' -i /etc/default/scx && systemctl restart scx''])]"
proof -
  have t1: "trimmed idle_env (schedext_flags_edit (sched_window [CHR 0x20, CHR 0x20])) = []"
    by (simp add: sched_window_def idle_env_def trim_ascii_def is_ascii_space_def)
  have t2: "trimmed commented_env (schedext_flags_edit (sched_window '' -v -k '')) = ''-v -k''"
    by (simp add: sched_window_def commented_env_def trim_ascii_def is_ascii_space_def)
  have c1: "\<not> is_flags_commented idle_env"
    by (simp add: is_flags_commented_def idle_env_def)
  have c2: "is_flags_commented commented_env"
    by (simp add: is_flags_commented_def commented_env_def)
  have s1: "service_cmd idle_env = ''enable --now''"
    by (simp add: service_cmd_def is_scx_service_enabled_def idle_env_def)
  have s2: "service_cmd commented_env = ''restart''"
    by (simp add: service_cmd_def is_scx_service_enabled_def commented_env_def)
  have w1: "schedext_combo_box (sched_window f) = ''scx_lavd''"
    and w2: "started_detached (sched_window f) = []" for f
    by (simp_all add: sched_window_def)
  show ?thesis
    using on_apply_flags_sed [where w = "sched_window [CHR 0x20, CHR 0x20]" and env = idle_env]
      on_apply_flags_sed [where w = "sched_window '' -v -k ''" and env = commented_env]
    by (simp add: t1 t2 c1 c2 s1 s2 w1 w2)
qed

text \<open>
  C10: when the scx service is neither enabled nor active, \<open>on_disable\<close> starts no
  process with \<open>QProcess::startDetached\<close> (neither the disable nor the stop command) and
  prints nothing; and whichever branch is taken, the disable and the apply button are
  both enabled when \<open>on_disable\<close> returns.
\<close>

theorem on_disable_idle_service:
  "(\<not> is_scx_service_enabled env \<and> \<not> is_scx_service_active env \<longrightarrow>
      started_detached (on_disable env w) = started_detached w
      \<and> printed (on_disable env w) = printed w)
   \<and> disable_button_enabled (on_disable env w)
   \<and> apply_button_enabled (on_disable env w)"
  by (simp add: on_disable_def Let_def startDetached_def print_out_def)

theorem on_disable_idle_service_witness:
  "\<not> is_scx_service_enabled idle_env \<and> \<not> is_scx_service_active idle_env
   \<and> started_detached (on_disable idle_env (sched_window [])) = []
   \<and> disable_button_enabled (on_disable idle_env (sched_window []))
   \<and> apply_button_enabled (on_disable idle_env (sched_window []))"
proof -
  have e: "\<not> is_scx_service_enabled idle_env"
    by (simp add: is_scx_service_enabled_def idle_env_def)
  have a: "\<not> is_scx_service_active idle_env"
    by (simp add: is_scx_service_active_def idle_env_def)
  show ?thesis
    using e a on_disable_idle_service [of idle_env "sched_window []"]
    by (simp add: sched_window_def)
qed

section \<open>Properties of the kernel manager window\<close>

lemmas demo_defs = demo_window_def demo_kernels_def demo_kernel_def demo_handle_def
  demo_alpm_def make_item_def

lemmas toggle_defs = itemDoubleClicked_def checkUncheckItem_def setCurrentItem_def
  setCheckState_def item_changed_def buildChangeList_def

subsection \<open>The two package loops\<close>







subsection \<open>The worker thread\<close>

lemma worker_transaction_change_list:
  "m_change_list (worker_transaction A w) = m_change_list w"
  by (simp add: worker_transaction_def Let_def split: prod.splits)

lemma worker_transaction_flags:
  "m_thread_running (worker_transaction A w) = m_thread_running w"
  "\<not> m_running (worker_transaction A w)"
  "m_worker_th (worker_transaction A w) = m_worker_th w"
  by (simp_all add: worker_transaction_def Let_def split: prod.splits)

lemma worker_step_change_list:
  "m_change_list (worker_step A w) = m_change_list w"
  by (simp add: worker_step_def worker_transaction_change_list
      split: option.splits worker_pc.splits)

lemma worker_steps_change_list:
  "m_change_list (worker_steps A n w) = m_change_list w"
  by (induction n arbitrary: w) (simp_all add: worker_step_change_list)

lemma confirmed_window_eq:
  "confirmed_window =
     demo_window\<lparr>m_running := True, m_cv_notified := 1, m_worker_th := Some Loop_test,
       m_change_list := [''linux-cachyos-bore''], ok_enabled := True,
       treeKernels := (treeKernels demo_window)
                        [3 := (treeKernels demo_window ! 3)\<lparr>checkState := Checked\<rparr>],
       currentItem := Some 3\<rparr>"
  by (simp add: confirmed_window_def on_execute_def demo_defs toggle_defs Let_def)

lemma install_selected_bore:
  "install_selected demo_alpm demo_kernels ''linux-cachyos-bore'' (demo_handle, err)
     = (demo_handle\<lparr>to_install := [''linux-cachyos-bore'']\<rparr>, err)"
  by (simp add: install_selected_def demo_defs)

lemma remove_selected_bore:
  "remove_selected demo_alpm demo_kernels ''linux-cachyos-bore''
      (demo_handle\<lparr>to_install := [''linux-cachyos-bore'']\<rparr>, err)
     = (demo_handle\<lparr>to_install := [''linux-cachyos-bore'']\<rparr>, err)"
  by (simp add: remove_selected_def demo_defs)

lemma confirmed_transaction_run:
  "worker_steps demo_alpm 4 confirmed_window =
     confirmed_window\<lparr>m_running := False,
       m_handle := demo_handle\<lparr>installed_pkgs :=
                      [''linux-cachyos'', ''linux-cachyos-lts'', ''linux-cachyos-bore'']\<rparr>,
       printed_err := [''Waiting... '' @ [CHR 0x0A]]\<rparr>"
  apply (simp add: confirmed_window_eq eval_nat_numeral worker_step_def demo_window_def)
  apply (simp add: worker_transaction_def Let_def install_selected_bore remove_selected_bore)
  apply (simp add: demo_alpm_def demo_handle_def)
  done

text \<open>
  C1, as the code has it: the worker only reads \<open>m_change_list\<close>. The body of a
  transaction (the snapshot, the installs, the removals and the commit) leaves
  \<open>m_change_list\<close> as it was, and so does any number of steps of the worker thread.
\<close>

theorem worker_keeps_change_list:
  "m_change_list (worker_transaction A w) = m_change_list w
   \<and> m_change_list (worker_steps A n w) = m_change_list w"
  by (simp add: worker_transaction_change_list worker_steps_change_list)

theorem worker_keeps_change_list_witness:
  "m_change_list (worker_transaction demo_alpm confirmed_window) = [''linux-cachyos-bore'']
   \<and> m_change_list (worker_steps demo_alpm 4 confirmed_window) = [''linux-cachyos-bore'']"
  using worker_keeps_change_list [of demo_alpm confirmed_window 4]
  by (simp add: confirmed_window_eq)

text \<open>
  C1, as the claim has it, fails: with linux-cachyos-bore checked and OK pressed, four
  steps of the worker run a whole transaction (the running flag is down again and the
  package is installed) and the change list still holds the package.
\<close>

theorem change_list_not_cleared_by_commit:
  "m_worker_th (worker_steps demo_alpm 4 confirmed_window) = Some Loop_test
   \<and> \<not> m_running (worker_steps demo_alpm 4 confirmed_window)
   \<and> installed_pkgs (m_handle (worker_steps demo_alpm 4 confirmed_window))
       = [''linux-cachyos'', ''linux-cachyos-lts'', ''linux-cachyos-bore'']
   \<and> m_change_list (worker_steps demo_alpm 4 confirmed_window) = [''linux-cachyos-bore'']
   \<and> m_change_list (worker_steps demo_alpm 4 confirmed_window) \<noteq> []"
  by (simp add: confirmed_transaction_run) (simp add: confirmed_window_eq)

lemma worker_step_thread_running:
  "m_thread_running (worker_step A w) = m_thread_running w"
  by (simp add: worker_step_def worker_transaction_flags
      split: option.splits worker_pc.splits)

lemma winding_down_step:
  assumes "winding_down w"
  shows "winding_down (worker_step A w)"
    and "rank (m_worker_th (worker_step A w)) \<le> rank (m_worker_th w) - 1"
  using assms by (auto simp: winding_down_def worker_step_def)

lemma winding_down_steps:
  "winding_down w \<Longrightarrow>
     winding_down (worker_steps A n w)
     \<and> rank (m_worker_th (worker_steps A n w)) \<le> rank (m_worker_th w) - n"
proof (induction n arbitrary: w)
  case 0
  then show ?case by simp
next
  case (Suc n)
  from Suc.prems have wd: "winding_down (worker_step A w)"
    and rk: "rank (m_worker_th (worker_step A w)) \<le> rank (m_worker_th w) - 1"
    by (rule winding_down_step)+
  from Suc.IH [OF wd] rk show ?case by (simp, arith)
qed

lemma closeEvent_flags:
  "m_running (closeEvent A w)" "\<not> m_thread_running (closeEvent A w)"
  "m_worker_th (closeEvent A w) = m_worker_th w"
  by (simp_all add: closeEvent_def closeEvent_store_running_def
      closeEvent_store_thread_running_def closeEvent_notify_all_def closeEvent_release_def)

lemma first_step_after_close:
  assumes "m_worker_th w = Some pc" "m_running w" "\<not> m_thread_running w"
  shows "winding_down (worker_step A w)"
  using assms
  by (cases pc) (simp_all add: winding_down_def worker_step_def worker_transaction_flags)

lemma rank_0:
  "winding_down w \<Longrightarrow> rank (m_worker_th w) = 0 \<Longrightarrow> m_worker_th w = Some Returned"
  by (auto simp: winding_down_def)

lemma rank_le_2: "winding_down w \<Longrightarrow> rank (m_worker_th w) \<le> 2"
  by (auto simp: winding_down_def)

text \<open>
  What \<open>closeEvent\<close> is written to do, in the run in which the worker takes no step
  while \<open>closeEvent\<close> executes: the conjunction of the two flags is then false; left to
  run, the worker is from its first step on never in the body of a transaction and
  never in \<open>m_cv.wait\<close>, and from its third step on it is past its loop.
\<close>

lemma closeEvent_uninterrupted_stops_worker:
  assumes "m_worker_th w = Some pc"
  shows "\<not> (m_running (closeEvent A w) \<and> m_thread_running (closeEvent A w))
    \<and> (\<forall>n\<ge>1. m_worker_th (worker_steps A n (closeEvent A w)) \<noteq> Some Transaction
             \<and> m_worker_th (worker_steps A n (closeEvent A w)) \<noteq> Some Cv_wait)
    \<and> (\<forall>n\<ge>3. m_worker_th (worker_steps A n (closeEvent A w)) = Some Returned)
    \<and> (pc = Cv_wait \<longrightarrow>
         m_worker_th (worker_steps A 1 (closeEvent A w)) = Some Flags_test
         \<and> m_worker_th (worker_steps A 2 (closeEvent A w)) = Some Loop_test
         \<and> m_worker_th (worker_steps A 3 (closeEvent A w)) = Some Returned)"
proof -
  let ?c = "closeEvent A w"
  have pc: "m_worker_th ?c = Some pc" using assms by (simp add: closeEvent_flags)
  have wd1: "winding_down (worker_step A ?c)"
    using pc by (rule first_step_after_close) (simp_all add: closeEvent_flags)
  have after: "winding_down (worker_steps A (Suc m) ?c)
      \<and> rank (m_worker_th (worker_steps A (Suc m) ?c)) \<le> 2 - m" for m
    using winding_down_steps [OF wd1, of A m] rank_le_2 [OF wd1] by (simp, arith)
  have a: "\<not> (m_running ?c \<and> m_thread_running ?c)"
    by (simp add: closeEvent_flags)
  have b: "\<forall>n\<ge>1. m_worker_th (worker_steps A n ?c) \<noteq> Some Transaction
             \<and> m_worker_th (worker_steps A n ?c) \<noteq> Some Cv_wait"
  proof (intro allI impI)
    fix n :: nat assume "1 \<le> n"
    then obtain m where "n = Suc m" by (cases n) simp_all
    with after [of m]
    show "m_worker_th (worker_steps A n ?c) \<noteq> Some Transaction
             \<and> m_worker_th (worker_steps A n ?c) \<noteq> Some Cv_wait"
      by (auto simp: winding_down_def)
  qed
  have c: "\<forall>n\<ge>3. m_worker_th (worker_steps A n ?c) = Some Returned"
  proof (intro allI impI)
    fix n :: nat assume "3 \<le> n"
    then obtain m where n: "n = Suc m" and m: "2 \<le> m" by (cases n) simp_all
    from after [of m] m
    have "winding_down (worker_steps A (Suc m) ?c)"
      and "rank (m_worker_th (worker_steps A (Suc m) ?c)) = 0"
      by simp_all
    then show "m_worker_th (worker_steps A n ?c) = Some Returned"
      unfolding n by (rule rank_0)
  qed
  have d: "pc = Cv_wait \<longrightarrow>
         m_worker_th (worker_steps A 1 ?c) = Some Flags_test
         \<and> m_worker_th (worker_steps A 2 ?c) = Some Loop_test
         \<and> m_worker_th (worker_steps A 3 ?c) = Some Returned"
    using pc closeEvent_flags(1,2) [of A w]
    by (simp add: numeral_2_eq_2 numeral_3_eq_3 worker_step_def)
  from a b c d show ?thesis by blast
qed

lemma worker_blocked:
  "worker_step A w = w \<Longrightarrow> worker_steps A n w = w"
  by (induction n) simp_all

lemma in_flight_transaction:
  "interleave demo_alpm [Worker, Worker, Worker] confirmed_window =
     confirmed_window\<lparr>m_worker_th := Some Transaction,
                       printed_err := [''Waiting... '' @ [CHR 0x0A]]\<rparr>"
  by (simp add: confirmed_window_eq worker_step_def demo_window_def)

lemma closed_during_transaction_eq:
  "closed_during_transaction =
     confirmed_window\<lparr>m_running := False, m_thread_running := False, m_cv_notified := 2,
       m_worker_th := Some Cv_wait,
       m_handle := demo_handle\<lparr>installed_pkgs :=
                      [''linux-cachyos'', ''linux-cachyos-lts'', ''linux-cachyos-bore'']\<rparr>,
       printed_err := [''Waiting... '' @ [CHR 0x0A], ''Waiting... '' @ [CHR 0x0A]]\<rparr>"
  unfolding closed_during_transaction_def
  apply (simp add: confirmed_window_eq worker_step_def demo_window_def
      closeEvent_store_running_def closeEvent_store_thread_running_def
      closeEvent_notify_all_def closeEvent_release_def)
  apply (simp add: worker_transaction_def Let_def install_selected_bore remove_selected_bore)
  apply (simp add: demo_alpm_def demo_handle_def)
  done

text \<open>
  C4, on the code: \<open>closeEvent\<close> does not always stop the worker. The user checks
  linux-cachyos-bore and presses OK; three steps take the worker into the body of the
  transaction. The window is closed meanwhile: \<open>closeEvent\<close> stores true into
  \<open>m_running\<close>; the worker finishes the transaction, stores false into \<open>m_running\<close>,
  finds \<open>m_thread_running\<close> still true at the test of its loop and enters
  \<open>m_cv.wait\<close>; \<open>closeEvent\<close> stores false into \<open>m_thread_running\<close>, notifies and
  releases the handle. Now \<open>closeEvent\<close> has run and notified, and the worker is in
  \<open>m_cv.wait\<close> with the predicate \<open>m_running\<close> false: every further step leaves it
  there, so its loop never exits.
\<close>

theorem closeEvent_during_transaction_leaves_worker_waiting:
  "m_worker_th (interleave demo_alpm [Worker, Worker, Worker] confirmed_window)
     = Some Transaction
   \<and> m_worker_th closed_during_transaction = Some Cv_wait
   \<and> \<not> m_running closed_during_transaction
   \<and> \<not> m_thread_running closed_during_transaction
   \<and> m_cv_notified closed_during_transaction = 2
   \<and> worker_step demo_alpm closed_during_transaction = closed_during_transaction
   \<and> m_worker_th (worker_steps demo_alpm 1000 closed_during_transaction) = Some Cv_wait
   \<and> m_worker_th (worker_steps demo_alpm 1000 closed_during_transaction) \<noteq> Some Returned"
proof -
  have a: "m_worker_th (interleave demo_alpm [Worker, Worker, Worker] confirmed_window)
             = Some Transaction"
    by (simp only: in_flight_transaction) simp
  have b: "m_worker_th closed_during_transaction = Some Cv_wait"
    and c: "\<not> m_running closed_during_transaction"
    and d: "\<not> m_thread_running closed_during_transaction"
    and e: "m_cv_notified closed_during_transaction = 2"
    by (simp_all add: closed_during_transaction_eq)
  have f: "worker_step demo_alpm closed_during_transaction = closed_during_transaction"
    using b c by (simp add: worker_step_def)
  have g: "worker_steps demo_alpm 1000 closed_during_transaction = closed_during_transaction"
    using f by (rule worker_blocked)
  from a b c d e f show ?thesis
    by (simp add: g)
qed

text \<open>
  A worker parked in \<open>m_cv.wait\<close> that wakes between the two stores of \<open>closeEvent\<close>
  finds both flags true and enters the body of a transaction.
\<close>

lemma parked_worker_woken_between_stores:
  "m_worker_th parked_window = Some Cv_wait
   \<and> m_worker_th (interleave demo_alpm [Store_running, Worker, Worker] parked_window)
       = Some Transaction"
  by (simp add: parked_window_def demo_window_def worker_step_def
      closeEvent_store_running_def)

subsection \<open>The OK button\<close>

text \<open>
  C6: when \<open>m_running\<close> is already true, \<open>on_execute\<close> returns the window as it found it:
  the two flags, the notifications of the condition variable, the worker thread, the
  change list and every other field are unchanged.
\<close>

theorem on_execute_while_running:
  "m_running w \<Longrightarrow> on_execute w = w"
  by (simp add: on_execute_def)

theorem on_execute_while_running_witness:
  "m_running busy_window \<and> on_execute busy_window = busy_window"
proof -
  have h: "m_running busy_window"
    by (simp add: busy_window_def)
  from h on_execute_while_running [OF h] show ?thesis by simp
qed

subsection \<open>The change list\<close>

lemma set_expected:
  "set (expected items)
     = set (checked_not_immutable items) \<union> set (unchecked_immutable items)"
  by (auto simp: expected_def in_change_set_def checked_not_immutable_def
      unchecked_immutable_def)

lemma buildChangeList_tree:
  "treeKernels (buildChangeList item w) = treeKernels w"
  "tree_focused (buildChangeList item w) = tree_focused w"
  by (simp_all add: buildChangeList_def Let_def)

lemma buildChangeList_list:
  "m_change_list (buildChangeList item w) =
     (if text_Immutable item = ''true'' \<and> checkState item = Unchecked
         \<or> checkState item = Checked
      then m_change_list w @ [text_PkgName item]
      else remove1 (text_PkgName item) (m_change_list w))"
  by (simp add: buildChangeList_def Let_def)

lemma toggle_tree:
  "treeKernels (itemDoubleClicked i w) =
     (if can_toggle i w then (treeKernels w)[i := toggled (treeKernels w ! i)]
      else treeKernels w)"
  by (simp add: itemDoubleClicked_def checkUncheckItem_def setCurrentItem_def
      setCheckState_def item_changed_def Let_def buildChangeList_tree toggled_def
      can_toggle_def)

lemma toggle_focus:
  "tree_focused (itemDoubleClicked i w) = tree_focused w"
  by (simp add: itemDoubleClicked_def checkUncheckItem_def setCurrentItem_def
      setCheckState_def item_changed_def Let_def buildChangeList_tree)

lemma toggle_change_list:
  "m_change_list (itemDoubleClicked i w) =
     (if can_toggle i w then
        (if checkState (treeKernels w ! i) = Checked
            \<and> text_Immutable (treeKernels w ! i) \<noteq> ''true''
         then remove1 (text_PkgName (treeKernels w ! i)) (m_change_list w)
         else m_change_list w @ [text_PkgName (treeKernels w ! i)])
      else m_change_list w)"
  by (simp add: itemDoubleClicked_def checkUncheckItem_def setCurrentItem_def
      setCheckState_def item_changed_def Let_def buildChangeList_list can_toggle_def)

lemma expected_names: "set (expected xs) \<subseteq> set (map text_PkgName xs)"
  by (auto simp: expected_def)

lemma name_in_expected:
  "distinct (map text_PkgName xs) \<Longrightarrow> i < length xs \<Longrightarrow>
     (text_PkgName (xs ! i) \<in> set (expected xs)) = in_change_set (xs ! i)"
proof (induction xs arbitrary: i)
  case Nil
  then show ?case by simp
next
  case (Cons x xs)
  show ?case
  proof (cases i)
    case 0
    with Cons.prems show ?thesis
      using expected_names [of xs] by (auto simp: expected_def)
  next
    case (Suc j)
    with Cons.prems have j: "j < length xs" and d: "distinct (map text_PkgName xs)"
      and x: "text_PkgName x \<noteq> text_PkgName (xs ! j)"
      by auto
    from Cons.IH [OF d j] x Suc show ?thesis
      by (auto simp: expected_def)
  qed
qed

lemma expected_update:
  "distinct (map text_PkgName xs) \<Longrightarrow> i < length xs \<Longrightarrow>
   text_PkgName y = text_PkgName (xs ! i) \<Longrightarrow>
     set (expected (xs[i := y])) =
       (set (expected xs) - {text_PkgName y})
         \<union> (if in_change_set y then {text_PkgName y} else {})"
proof (induction xs arbitrary: i)
  case Nil
  then show ?case by simp
next
  case (Cons x xs)
  show ?case
  proof (cases i)
    case 0
    with Cons.prems have "text_PkgName y \<notin> set (expected xs)"
      using expected_names [of xs] by auto
    with 0 Cons.prems show ?thesis
      by (auto simp: expected_def)
  next
    case (Suc j)
    with Cons.prems have j: "j < length xs" and d: "distinct (map text_PkgName xs)"
      and y: "text_PkgName y = text_PkgName (xs ! j)"
      and x: "text_PkgName x \<noteq> text_PkgName y"
      by auto
    have e: "set (expected (x # zs)) =
               (if in_change_set x then {text_PkgName x} else {}) \<union> set (expected zs)" for zs
      by (auto simp: expected_def)
    from Cons.IH [OF d j y] x show ?thesis
      unfolding Suc list_update_code e by auto
  qed
qed

lemma toggled_fields:
  "text_PkgName (toggled item) = text_PkgName item"
  "text_Immutable (toggled item) = text_Immutable item"
  "childCount (toggled item) = childCount item"
  by (simp_all add: toggled_def)

lemma toggle_names:
  "map text_PkgName (treeKernels (itemDoubleClicked i w)) = map text_PkgName (treeKernels w)"
  by (auto simp: toggle_tree toggled_fields can_toggle_def nth_list_update
      intro!: nth_equalityI)

lemma toggle_length:
  "length (treeKernels (itemDoubleClicked i w)) = length (treeKernels w)"
  by (simp add: toggle_tree)

lemma toggle_immutable:
  "k < length (treeKernels w) \<Longrightarrow>
     text_Immutable (treeKernels (itemDoubleClicked i w) ! k) = text_Immutable (treeKernels w ! k)"
  by (auto simp: toggle_tree nth_list_update toggled_fields can_toggle_def)

lemma toggle_other:
  "k \<noteq> i \<Longrightarrow> treeKernels (itemDoubleClicked i w) ! k = treeKernels w ! k"
  by (simp add: toggle_tree)

lemma toggle_invariant:
  assumes names: "distinct (map text_PkgName (treeKernels w))"
    and dist: "distinct (m_change_list w)"
    and eq: "set (m_change_list w) = set (expected (treeKernels w))"
    and imm: "i < length (treeKernels w) \<and> text_Immutable (treeKernels w ! i) = ''true''
                \<longrightarrow> checkState (treeKernels w ! i) = Checked"
  shows "distinct (m_change_list (itemDoubleClicked i w))
         \<and> set (m_change_list (itemDoubleClicked i w))
             = set (expected (treeKernels (itemDoubleClicked i w)))"
proof (cases "can_toggle i w")
  case False
  with dist eq show ?thesis
    by (simp add: toggle_tree toggle_change_list)
next
  case True
  then have i: "i < length (treeKernels w)"
    by (simp add: can_toggle_def)
  let ?it = "treeKernels w ! i"
  let ?n = "text_PkgName ?it"
  have mem: "(?n \<in> set (m_change_list w)) = in_change_set ?it"
    using name_in_expected [OF names i] eq by simp
  have upd: "set (expected ((treeKernels w)[i := toggled ?it])) =
       (set (m_change_list w) - {?n}) \<union> (if in_change_set (toggled ?it) then {?n} else {})"
    using expected_update [OF names i, of "toggled ?it"] eq
    by (simp add: toggled_fields)
  show ?thesis
  proof (cases "checkState ?it = Checked \<and> text_Immutable ?it \<noteq> ''true''")
    case True
    then have "\<not> in_change_set (toggled ?it)"
      by (simp add: in_change_set_def toggled_def)
    with \<open>can_toggle i w\<close> True dist upd show ?thesis
      by (simp add: toggle_tree toggle_change_list)
  next
    case False
    with imm i have out: "\<not> in_change_set ?it"
      by (auto simp: in_change_set_def)
    from False imm i have "in_change_set (toggled ?it)"
      by (auto simp: in_change_set_def toggled_def)
    with \<open>can_toggle i w\<close> False dist upd mem out show ?thesis
      by (auto simp: toggle_tree toggle_change_list)
  qed
qed

lemma toggles_invariant:
  assumes "distinct (map text_PkgName (treeKernels w))"
    and "distinct (m_change_list w)"
    and "set (m_change_list w) = set (expected (treeKernels w))"
    and "\<forall>i\<in>set js. i < length (treeKernels w) \<and> text_Immutable (treeKernels w ! i) = ''true''
           \<longrightarrow> checkState (treeKernels w ! i) = Checked \<and> count_list js i \<le> 1"
  shows "distinct (m_change_list (toggles js w))
         \<and> set (m_change_list (toggles js w)) = set (expected (treeKernels (toggles js w)))"
  using assms
proof (induction js arbitrary: w)
  case Nil
  then show ?case by simp
next
  case (Cons j js)
  let ?w = "itemDoubleClicked j w"
  from Cons.prems(4)
  have "j < length (treeKernels w) \<and> text_Immutable (treeKernels w ! j) = ''true''
          \<longrightarrow> checkState (treeKernels w ! j) = Checked"
    by simp
  from toggle_invariant [OF Cons.prems(1,2,3) this]
  have d: "distinct (m_change_list ?w)"
    and e: "set (m_change_list ?w) = set (expected (treeKernels ?w))"
    by simp_all
  have n: "distinct (map text_PkgName (treeKernels ?w))"
    using Cons.prems(1) by (simp add: toggle_names)
  have r: "\<forall>i\<in>set js. i < length (treeKernels ?w) \<and> text_Immutable (treeKernels ?w ! i) = ''true''
           \<longrightarrow> checkState (treeKernels ?w ! i) = Checked \<and> count_list js i \<le> 1"
  proof (intro ballI impI)
    fix i
    assume i: "i \<in> set js"
      and "i < length (treeKernels ?w) \<and> text_Immutable (treeKernels ?w ! i) = ''true''"
    then have len: "i < length (treeKernels w)"
      and im: "text_Immutable (treeKernels w ! i) = ''true''"
      by (auto simp: toggle_length toggle_immutable)
    with Cons.prems(4) i
    have c: "checkState (treeKernels w ! i) = Checked" and k: "count_list (j # js) i \<le> 1"
      by simp_all
    from i have "count_list js i \<noteq> 0"
      by (simp add: count_list_0_iff)
    with k have "i \<noteq> j" and "count_list js i \<le> 1"
      by (auto split: if_splits)
    with c show "checkState (treeKernels ?w ! i) = Checked \<and> count_list js i \<le> 1"
      by (simp add: toggle_other)
  qed
  from Cons.IH [OF n d e r] show ?case by simp
qed

lemma toggles_immutable_checked:
  assumes "\<forall>k<length (treeKernels w). text_Immutable (treeKernels w ! k) = ''true''
              \<longrightarrow> checkState (treeKernels w ! k) = Checked"
    and "\<forall>i\<in>set js. i < length (treeKernels w)
              \<longrightarrow> text_Immutable (treeKernels w ! i) \<noteq> ''true''"
  shows "\<forall>k<length (treeKernels (toggles js w)).
           text_Immutable (treeKernels (toggles js w) ! k) = ''true''
              \<longrightarrow> checkState (treeKernels (toggles js w) ! k) = Checked"
  using assms
proof (induction js arbitrary: w)
  case Nil
  then show ?case by simp
next
  case (Cons j js)
  let ?w = "itemDoubleClicked j w"
  have a: "\<forall>k<length (treeKernels ?w). text_Immutable (treeKernels ?w ! k) = ''true''
              \<longrightarrow> checkState (treeKernels ?w ! k) = Checked"
  proof (intro allI impI)
    fix k
    assume "k < length (treeKernels ?w)" and "text_Immutable (treeKernels ?w ! k) = ''true''"
    then have len: "k < length (treeKernels w)"
      and im: "text_Immutable (treeKernels w ! k) = ''true''"
      by (simp_all add: toggle_length toggle_immutable)
    with Cons.prems(2) have "k \<noteq> j" by auto
    with Cons.prems(1) len im show "checkState (treeKernels ?w ! k) = Checked"
      by (simp add: toggle_other)
  qed
  have b: "\<forall>i\<in>set js. i < length (treeKernels ?w)
              \<longrightarrow> text_Immutable (treeKernels ?w ! i) \<noteq> ''true''"
    using Cons.prems(2) by (simp add: toggle_length toggle_immutable)
  from Cons.IH [OF a b] show ?case by simp
qed

lemma no_unchecked_immutable:
  assumes "\<forall>k<length items. text_Immutable (items ! k) = ''true''
              \<longrightarrow> checkState (items ! k) = Checked"
  shows "unchecked_immutable items = []"
proof -
  have "\<not> (checkState item = Unchecked \<and> text_Immutable item = ''true'')"
    if "item \<in> set items" for item
  proof -
    from that obtain k where "k < length items" and "items ! k = item"
      by (auto simp: in_set_conv_nth)
    with assms show ?thesis by auto
  qed
  then show ?thesis
    by (simp add: unchecked_immutable_def filter_empty_conv)
qed

lemma make_item_fields:
  "text_PkgName (make_item A h k) = raw k"
  "\<not> in_change_set (make_item A h k)"
  "text_Immutable (make_item A h k) = ''true'' \<longrightarrow> checkState (make_item A h k) = Checked"
  by (simp_all add: make_item_def Let_def in_change_set_def)

lemma initial_window_facts:
  assumes "initial_window A w"
  shows "map text_PkgName (treeKernels w) = map raw (m_kernels w)"
    and "expected (treeKernels w) = []"
    and "m_change_list w = []"
    and "\<forall>k<length (treeKernels w). text_Immutable (treeKernels w ! k) = ''true''
              \<longrightarrow> checkState (treeKernels w ! k) = Checked"
  using assms
  by (simp_all add: initial_window_def expected_def make_item_fields filter_empty_conv)

text \<open>
  C2, as the code has it. Start from the window the constructor leaves, with pairwise
  distinct package names, and double-click rows in any order, no immutable row more than
  once. Then the change list has no duplicates and holds exactly the names of the rows
  that are checked and not immutable together with the names of the immutable rows that
  are unchecked (an installed kernel that has been unchecked is listed, for removal). If
  no immutable row is clicked at all, the change list holds exactly the names of the rows
  that are checked and not immutable.
\<close>

theorem change_list_after_toggles:
  assumes init: "initial_window A w"
    and names: "distinct (map raw (m_kernels w))"
    and once: "\<forall>i\<in>set js. i < length (treeKernels w) \<and> text_Immutable (treeKernels w ! i) = ''true''
                 \<longrightarrow> count_list js i \<le> 1"
  shows "distinct (m_change_list (toggles js w))
    \<and> set (m_change_list (toggles js w))
        = set (checked_not_immutable (treeKernels (toggles js w)))
            \<union> set (unchecked_immutable (treeKernels (toggles js w)))
    \<and> ((\<forall>i\<in>set js. i < length (treeKernels w)
            \<longrightarrow> text_Immutable (treeKernels w ! i) \<noteq> ''true'')
        \<longrightarrow> set (m_change_list (toggles js w))
              = set (checked_not_immutable (treeKernels (toggles js w))))"
proof -
  note f = initial_window_facts [OF init]
  have n: "distinct (map text_PkgName (treeKernels w))"
    using names f(1) by simp
  have r: "\<forall>i\<in>set js. i < length (treeKernels w) \<and> text_Immutable (treeKernels w ! i) = ''true''
           \<longrightarrow> checkState (treeKernels w ! i) = Checked \<and> count_list js i \<le> 1"
    using once f(4) by blast
  have "distinct (m_change_list w)"
    and "set (m_change_list w) = set (expected (treeKernels w))"
    using f(2,3) by simp_all
  from toggles_invariant [OF n this r]
  have d: "distinct (m_change_list (toggles js w))"
    and e: "set (m_change_list (toggles js w))
        = set (checked_not_immutable (treeKernels (toggles js w)))
            \<union> set (unchecked_immutable (treeKernels (toggles js w)))"
    by (simp_all add: set_expected)
  have "set (m_change_list (toggles js w))
              = set (checked_not_immutable (treeKernels (toggles js w)))"
    if "\<forall>i\<in>set js. i < length (treeKernels w)
            \<longrightarrow> text_Immutable (treeKernels w ! i) \<noteq> ''true''"
    using e no_unchecked_immutable [OF toggles_immutable_checked [OF f(4) that]]
    by simp
  with d e show ?thesis by blast
qed

lemma demo_tree:
  "treeKernels demo_window =
     [\<lparr>checkState = Checked, text_PkgName = ''linux-cachyos'', text_Version = ''6.9.1-1'',
       text_Category = ''bore'', text_Displayed = ''true'', text_Immutable = ''true'',
       childCount = 0\<rparr>,
      \<lparr>checkState = Checked, text_PkgName = ''linux-cachyos-lts'', text_Version = ''6.9.1-1'',
       text_Category = ''bore'', text_Displayed = ''true'', text_Immutable = ''true'',
       childCount = 0\<rparr>,
      \<lparr>checkState = Unchecked, text_PkgName = ''linux-cachyos-rc'', text_Version = ''6.9.1-1'',
       text_Category = ''bore'', text_Displayed = ''true'', text_Immutable = [],
       childCount = 0\<rparr>,
      \<lparr>checkState = Unchecked, text_PkgName = ''linux-cachyos-bore'', text_Version = ''6.9.1-1'',
       text_Category = ''bore'', text_Displayed = ''true'', text_Immutable = [],
       childCount = 0\<rparr>]"
  by (simp add: demo_defs)

lemma demo_initial: "initial_window demo_alpm demo_window"
  by (simp add: initial_window_def demo_window_def)

lemma demo_names: "distinct (map raw (m_kernels demo_window))"
  by (simp add: demo_window_def demo_kernels_def demo_kernel_def)

lemma demo_toggle_0:
  "m_change_list (toggles [0] demo_window) = [''linux-cachyos'']"
  "checked_not_immutable (treeKernels (toggles [0] demo_window)) = []"
  by (simp_all add: demo_defs toggle_defs Let_def checked_not_immutable_def)

lemma demo_toggles:
  "m_change_list (toggles [2, 3, 2, 0] demo_window) = [''linux-cachyos-bore'', ''linux-cachyos'']"
  "checked_not_immutable (treeKernels (toggles [2, 3, 2, 0] demo_window)) = [''linux-cachyos-bore'']"
  "unchecked_immutable (treeKernels (toggles [2, 3, 2, 0] demo_window)) = [''linux-cachyos'']"
  by (simp_all add: demo_defs toggle_defs Let_def checked_not_immutable_def unchecked_immutable_def)

theorem change_list_after_toggles_witness:
  "initial_window demo_alpm demo_window
   \<and> distinct (map raw (m_kernels demo_window))
   \<and> text_Immutable (treeKernels demo_window ! 0) = ''true''
   \<and> count_list [2, 3, 2, 0] (0::nat) = 1
   \<and> text_Immutable (treeKernels demo_window ! 2) = []
   \<and> text_Immutable (treeKernels demo_window ! 3) = []
   \<and> m_change_list (toggles [2, 3, 2, 0] demo_window)
       = [''linux-cachyos-bore'', ''linux-cachyos'']
   \<and> distinct (m_change_list (toggles [2, 3, 2, 0] demo_window))
   \<and> set (m_change_list (toggles [2, 3, 2, 0] demo_window))
       = set (checked_not_immutable (treeKernels (toggles [2, 3, 2, 0] demo_window)))
           \<union> set (unchecked_immutable (treeKernels (toggles [2, 3, 2, 0] demo_window)))
   \<and> set (m_change_list (toggles [2, 3, 2] demo_window))
       = set (checked_not_immutable (treeKernels (toggles [2, 3, 2] demo_window)))"
proof -
  have h0: "text_Immutable (treeKernels demo_window ! 0) = ''true''
     \<and> count_list [2, 3, 2, 0] (0::nat) = 1
     \<and> text_Immutable (treeKernels demo_window ! 2) = []
     \<and> text_Immutable (treeKernels demo_window ! 3) = []"
    by (simp add: demo_tree)
  have h1: "\<forall>i\<in>set [2, 3, 2, 0].
         i < length (treeKernels demo_window)
           \<and> text_Immutable (treeKernels demo_window ! i) = ''true''
         \<longrightarrow> count_list [2, 3, 2, 0] i \<le> 1"
    by (simp add: demo_tree)
  have h2: "\<forall>i\<in>set [2, 3, 2].
         i < length (treeKernels demo_window)
           \<and> text_Immutable (treeKernels demo_window ! i) = ''true''
         \<longrightarrow> count_list [2, 3, 2] i \<le> 1"
    by (simp add: demo_tree)
  have h3: "\<forall>i\<in>set [2, 3, 2].
         i < length (treeKernels demo_window)
         \<longrightarrow> text_Immutable (treeKernels demo_window ! i) \<noteq> ''true''"
    by (simp add: demo_tree)
  from change_list_after_toggles [OF demo_initial demo_names h1]
    change_list_after_toggles [OF demo_initial demo_names h2] h3
  have "distinct (m_change_list (toggles [2, 3, 2, 0] demo_window))
   \<and> set (m_change_list (toggles [2, 3, 2, 0] demo_window))
       = set (checked_not_immutable (treeKernels (toggles [2, 3, 2, 0] demo_window)))
           \<union> set (unchecked_immutable (treeKernels (toggles [2, 3, 2, 0] demo_window)))
   \<and> set (m_change_list (toggles [2, 3, 2] demo_window))
       = set (checked_not_immutable (treeKernels (toggles [2, 3, 2] demo_window)))"
    by blast
  with demo_initial demo_names h0 demo_toggles(1) show ?thesis
    by blast
qed

text \<open>
  C2, as the claim has it, fails: linux-cachyos is installed, so its row is immutable and
  starts checked; one double click unchecks it and puts it on the change list, while no
  row is both checked and not immutable.
\<close>

theorem unchecked_installed_kernel_is_listed:
  "initial_window demo_alpm demo_window
   \<and> m_change_list (toggles [0] demo_window) = [''linux-cachyos'']
   \<and> checked_not_immutable (treeKernels (toggles [0] demo_window)) = []
   \<and> set (m_change_list (toggles [0] demo_window))
       \<noteq> set (checked_not_immutable (treeKernels (toggles [0] demo_window)))"
  using demo_toggle_0 by (simp add: demo_initial)

end
